theory Spec2Isabelle
  imports Main
begin

section \<open>JavaScript strings\<close>

text \<open>
  A JavaScript string is a sequence of UTF-16 code units. The model covers the strings
  whose code units are below 256 (Basic Latin and Latin-1 Supplement): a \<^typ>\<open>char\<close>
  is the code unit with the same number. On this range \<open>String.prototype.trim\<close>
  strips the code units TAB, LF, VT, FF, CR, SPACE and NO-BREAK SPACE from both ends, and
  \<open>String.prototype.toLowerCase\<close> adds 0x20 to \<open>A\<close>..\<open>Z\<close> and to
  U+00C0..U+00DE except the multiplication sign U+00D7, and keeps every other code unit.
\<close>

definition isWhiteSpace :: "char \<Rightarrow> bool" where
  "isWhiteSpace c = ((of_char c :: nat) \<in> {0x09, 0x0A, 0x0B, 0x0C, 0x0D, 0x20, 0xA0})"

definition lowerChar :: "char \<Rightarrow> char" where
  "lowerChar c =
     (let n = (of_char c :: nat)
      in if (0x41 \<le> n \<and> n \<le> 0x5A) \<or> (0xC0 \<le> n \<and> n \<le> 0xDE \<and> n \<noteq> 0xD7)
         then char_of (n + 0x20) else c)"

definition toLowerCase :: "string \<Rightarrow> string" where
  "toLowerCase s = map lowerChar s"

definition trim :: "string \<Rightarrow> string" where
  "trim s = rev (dropWhile isWhiteSpace (rev (dropWhile isWhiteSpace s)))"

section \<open>Plain objects\<close>

text \<open>
  \<open>KEY_MAPPINGS\<close> and \<open>KEY_CODES\<close> are object literals, and \<open>JSON.parse\<close>
  returns a plain object for a JSON object. Their prototype is \<open>Object.prototype\<close>,
  so both \<open>k in obj\<close> and \<open>obj[k]\<close> also find the members of
  \<open>Object.prototype\<close>, which are functions (and, for \<open>__proto__\<close>, the
  prototype object itself): truthy values that are not strings.
\<close>

definition objectPrototypeKeys :: "string list" where
  "objectPrototypeKeys =
     [''constructor'', ''__defineGetter__'', ''__defineSetter__'', ''hasOwnProperty'',
      ''__lookupGetter__'', ''__lookupSetter__'', ''isPrototypeOf'',
      ''propertyIsEnumerable'', ''toString'', ''valueOf'', ''__proto__'',
      ''toLocaleString'']"

text \<open>The value of \<open>obj[k]\<close>: an own property, an inherited member, or \<open>undefined\<close>.\<close>

datatype 'v slot = Own 'v | Inherited | Missing

definition js_in :: "string \<Rightarrow> (string \<rightharpoonup> 'v) \<Rightarrow> bool" where
  "js_in k obj = (k \<in> dom obj \<or> k \<in> set objectPrototypeKeys)"

definition js_get :: "(string \<rightharpoonup> 'v) \<Rightarrow> string \<Rightarrow> 'v slot" where
  "js_get obj k =
     (case obj k of
        Some v \<Rightarrow> Own v
      | None \<Rightarrow> if k \<in> set objectPrototypeKeys then Inherited else Missing)"

section \<open>What JSON.parse returns\<close>

text \<open>
  A number is modelled by what the program can observe of it: whether it is zero
  (\<open>0\<close> and \<open>-0\<close>, falsy), and whether it is finite (\<open>JSON.parse\<close> reads
  \<open>1e400\<close> as \<open>Infinity\<close>, which \<open>JSON.stringify\<close> writes as \<open>null\<close>).
  \<open>JSON.parse\<close> never returns \<open>NaN\<close>.
\<close>

datatype number = Zero | NonZero | Infinite

text \<open>
  The value of a property of the parsed table. Of an array or an object in that place the
  program can only observe that it is truthy and not a string.
\<close>

datatype json = JNull | JBool bool | JNumber number | JString string | JArray | JObject

fun truthy :: "json slot \<Rightarrow> bool" where
  "truthy Missing = False"
| "truthy Inherited = True"
| "truthy (Own JNull) = False"
| "truthy (Own (JBool b)) = b"
| "truthy (Own (JNumber n)) = (n \<noteq> Zero)"
| "truthy (Own (JString s)) = (s \<noteq> [])"
| "truthy (Own JArray) = True"
| "truthy (Own JObject) = True"

text \<open>
  \<open>obj[k] = v\<close> on a plain object, for a string \<open>v\<close>: it creates or overwrites the
  own property, except that with no own property \<open>__proto__\<close> the assignment reaches
  the setter of \<open>Object.prototype\<close>, which ignores a value that is not an object.
\<close>

definition js_set :: "(string \<rightharpoonup> json) \<Rightarrow> string \<Rightarrow> string \<Rightarrow> (string \<rightharpoonup> json)" where
  "js_set obj k v = (if k = ''__proto__'' \<and> obj k = None then obj else obj(k \<mapsto> JString v))"

text \<open>
  \<open>loadMappings\<close> assigns to \<open>TAG_KEY_MAPPING\<close> whatever \<open>JSON.parse\<close>
  returns: \<open>null\<close>, a boolean, a number, a string, an array or a plain object. An
  array is its list of elements, where \<open>None\<close> is a hole (a later assignment past
  the end leaves holes), together with the named properties that assignments added to it.
\<close>

datatype table =
    TNull
  | TBool bool
  | TNumber number
  | TString string
  | TArray "json option list" "string \<rightharpoonup> json"
  | TObject "string \<rightharpoonup> json"

text \<open>
  Property keys that are canonical decimal numerals (\<open>0\<close>, or digits that do not
  start with \<open>0\<close>) are the integer indices of a string; those below
  \<open>2\<^sup>3\<^sup>2 - 1\<close> are the array indices.
\<close>

definition isDigit :: "char \<Rightarrow> bool" where
  "isDigit c = (0x30 \<le> (of_char c :: nat) \<and> (of_char c :: nat) \<le> 0x39)"

definition digitValue :: "char \<Rightarrow> nat" where
  "digitValue c = of_char c - 0x30"

definition decimalIndex :: "string \<Rightarrow> nat option" where
  "decimalIndex k =
     (if k = ''0'' then Some 0
      else if k \<noteq> [] \<and> list_all isDigit k \<and> hd k \<noteq> CHR ''0''
      then Some (foldl (\<lambda>a c. 10 * a + digitValue c) 0 k)
      else None)"

definition arrayIndex :: "string \<Rightarrow> nat option" where
  "arrayIndex k =
     (case decimalIndex k of
        Some n \<Rightarrow> if n < 4294967295 then Some n else None
      | None \<Rightarrow> None)"

text \<open>
  The own properties of the table (for a primitive, of the wrapper object that a property
  access creates): the characters and the length of a string, the elements, the length
  and the named properties of an array, the properties of an object.
\<close>

fun own :: "table \<Rightarrow> string \<Rightarrow> json option" where
  "own TNull k = None"
| "own (TBool b) k = None"
| "own (TNumber n) k = None"
| "own (TString s) k =
     (if k = ''length'' then Some (JNumber (if s = [] then Zero else NonZero))
      else (case decimalIndex k of
              Some n \<Rightarrow> if n < length s then Some (JString [s ! n]) else None
            | None \<Rightarrow> None))"
| "own (TArray els ext) k =
     (if k = ''length'' then Some (JNumber (if els = [] then Zero else NonZero))
      else (case arrayIndex k of
              Some n \<Rightarrow> if n < length els then els ! n else None
            | None \<Rightarrow> ext k))"
| "own (TObject m) k = m k"

text \<open>
  The members of \<open>Boolean.prototype\<close> and \<open>Number.prototype\<close>. Those of
  \<open>String.prototype\<close> and \<open>Array.prototype\<close> differ between versions of the
  runtime; the environment (below) gives them.
\<close>

definition booleanPrototypeKeys :: "string list" where
  "booleanPrototypeKeys = [''constructor'', ''toString'', ''valueOf'']"

definition numberPrototypeKeys :: "string list" where
  "numberPrototypeKeys =
     [''constructor'', ''toExponential'', ''toFixed'', ''toLocaleString'', ''toPrecision'',
      ''toString'', ''valueOf'']"

section \<open>The environment\<close>

text \<open>
  \<open>fs.writeFileSync\<close> opens the file for writing, which empties it, and writes the
  text. \<open>Written\<close>: the whole text is in the file. \<open>Refused\<close>: the file could
  not be opened and is as it was. \<open>Truncated\<close>: the file was opened and the write
  stopped early, so that the file holds a proper prefix of the text.
\<close>

datatype write_result = Written | Refused | Truncated

text \<open>
  What the environment decides during one call: the operator's answer to the prompt;
  whether reading the mappings file succeeds; what writing it does; whether writing the
  temporary script and running the child process succeed. It also holds what the runtime
  decides: the members of \<open>String.prototype\<close> and \<open>Array.prototype\<close>; for a string
  that contains a digit and is not a canonical decimal numeral (such as \<open>0x10\<close>,
  \<open>1e3\<close> or \<open>07\<close>) the array length that \<open>ToNumber\<close> gives it, if any; and
  the number that a proper prefix of a number's text parses to, if any.
\<close>

record env =
  answer :: string
  readOk :: bool
  fileWrite :: write_result
  tmpWriteOk :: bool
  execOk :: bool
  stringMembers :: "string list"
  arrayMembers :: "string list"
  numericLiteral :: "string \<Rightarrow> nat option"
  truncatedNumber :: "number option"

section \<open>Reading and writing TAG_KEY_MAPPING\<close>

text \<open>Whether the prototype chain of the table has a member \<open>k\<close>.\<close>

fun inherited :: "env \<Rightarrow> table \<Rightarrow> string \<Rightarrow> bool" where
  "inherited e TNull k = False"
| "inherited e (TBool b) k = (k \<in> set booleanPrototypeKeys \<or> k \<in> set objectPrototypeKeys)"
| "inherited e (TNumber n) k = (k \<in> set numberPrototypeKeys \<or> k \<in> set objectPrototypeKeys)"
| "inherited e (TString s) k = (k \<in> set (stringMembers e) \<or> k \<in> set objectPrototypeKeys)"
| "inherited e (TArray els ext) k = (k \<in> set (arrayMembers e) \<or> k \<in> set objectPrototypeKeys)"
| "inherited e (TObject m) k = (k \<in> set objectPrototypeKeys)"

text \<open>
  \<open>TAG_KEY_MAPPING[k]\<close>. On \<open>null\<close> it throws a \<open>TypeError\<close> (\<open>None\<close>);
  otherwise the own property is found before the prototype chain.
\<close>

definition tableGet :: "env \<Rightarrow> table \<Rightarrow> string \<Rightarrow> json slot option" where
  "tableGet e tbl k =
     (if tbl = TNull then None
      else Some (case own tbl k of
                   Some v \<Rightarrow> Own v
                 | None \<Rightarrow> if inherited e tbl k then Inherited else Missing))"

text \<open>
  The length that \<open>arr.length = v\<close> sets for a string \<open>v\<close>, \<open>None\<close> when the
  assignment throws a \<open>RangeError\<close>. \<open>ToNumber\<close> gives 0 for a string of
  whitespace, \<open>NaN\<close> or an infinity for every other string without a digit, and its
  value for a canonical decimal numeral; the lengths are the integers up to
  \<open>2\<^sup>3\<^sup>2 - 1\<close>.
\<close>

definition toArrayLength :: "env \<Rightarrow> string \<Rightarrow> nat option" where
  "toArrayLength e v =
     (if trim v = [] then Some 0
      else if \<not> list_ex isDigit v then None
      else (case decimalIndex v of
              Some n \<Rightarrow> if n < 4294967296 then Some n else None
            | None \<Rightarrow> numericLiteral e v))"

definition setElement :: "nat \<Rightarrow> json \<Rightarrow> json option list \<Rightarrow> json option list" where
  "setElement n v els =
     (if n < length els then els[n := Some v]
      else els @ replicate (n - length els) None @ [Some v])"

definition setLength :: "nat \<Rightarrow> json option list \<Rightarrow> json option list" where
  "setLength n els =
     (if n \<le> length els then take n els else els @ replicate (n - length els) None)"

text \<open>
  \<open>TAG_KEY_MAPPING[k] = v\<close> for a string \<open>v\<close>, in a script that is not in strict
  mode; \<open>None\<close> when it throws. On \<open>null\<close> it throws a \<open>TypeError\<close>. On a
  boolean, a number or a string it does nothing. On an array it sets the element for an
  array index, the length for \<open>length\<close>, and a named property otherwise.
\<close>

fun tableSet :: "env \<Rightarrow> table \<Rightarrow> string \<Rightarrow> string \<Rightarrow> table option" where
  "tableSet e TNull k v = None"
| "tableSet e (TBool b) k v = Some (TBool b)"
| "tableSet e (TNumber n) k v = Some (TNumber n)"
| "tableSet e (TString s) k v = Some (TString s)"
| "tableSet e (TArray els ext) k v =
     (if k = ''length'' then
        (case toArrayLength e v of
           None \<Rightarrow> None
         | Some n \<Rightarrow> Some (TArray (setLength n els) ext))
      else (case arrayIndex k of
              Some n \<Rightarrow> Some (TArray (setElement n (JString v) els) ext)
            | None \<Rightarrow> Some (TArray els (js_set ext k v))))"
| "tableSet e (TObject m) k v = Some (TObject (js_set m k v))"

section \<open>The mapping store\<close>

text \<open>
  The file \<open>tag-key-mappings.json\<close> is absent (\<open>None\<close>), holds text that
  \<open>JSON.parse\<close> rejects, or holds JSON text, modelled by the value it parses to.
\<close>

datatype fileContent = Malformed | Json table

record state =
  TAG_KEY_MAPPING :: table
  MAPPINGS_FILE :: "fileContent option"

text \<open>
  What \<open>JSON.parse\<close> returns for the text \<open>JSON.stringify(TAG_KEY_MAPPING, null, 2)\<close>:
  a non-finite number and a hole of an array have become \<open>null\<close>, and the named
  properties of an array are not written.
\<close>

fun serialValue :: "json \<Rightarrow> json" where
  "serialValue (JNumber Infinite) = JNull"
| "serialValue v = v"

fun serial :: "table \<Rightarrow> table" where
  "serial (TNumber Infinite) = TNull"
| "serial (TArray els ext) =
     TArray (map (\<lambda>x. Some (case x of None \<Rightarrow> JNull | Some v \<Rightarrow> serialValue v)) els) Map.empty"
| "serial (TObject m) = TObject (\<lambda>k. map_option serialValue (m k))"
| "serial tbl = tbl"

text \<open>
  What a proper prefix of that text parses to: only a proper prefix of the text of a
  finite number can be JSON text again, and then it is a number.
\<close>

fun truncated :: "env \<Rightarrow> table \<Rightarrow> fileContent" where
  "truncated e (TNumber Infinite) = Malformed"
| "truncated e (TNumber n) =
     (case truncatedNumber e of None \<Rightarrow> Malformed | Some n' \<Rightarrow> Json (TNumber n'))"
| "truncated e tbl = Malformed"

definition saveMappings :: "env \<Rightarrow> state \<Rightarrow> state" where
  "saveMappings e s =
     (case fileWrite e of
        Written \<Rightarrow> s\<lparr>MAPPINGS_FILE := Some (Json (serial (TAG_KEY_MAPPING s)))\<rparr>
      | Refused \<Rightarrow> s
      | Truncated \<Rightarrow> s\<lparr>MAPPINGS_FILE := Some (truncated e (TAG_KEY_MAPPING s))\<rparr>)"

text \<open>
  \<open>loadMappings\<close> assigns the parsed value before it calls \<open>Object.keys\<close> on it,
  so for \<open>null\<close> the \<open>TypeError\<close> of \<open>Object.keys\<close> is caught with
  \<open>TAG_KEY_MAPPING\<close> already \<open>null\<close>. A failed read and a \<open>SyntaxError\<close>
  of \<open>JSON.parse\<close> are caught with the table as it was.
\<close>

definition loadMappings :: "env \<Rightarrow> state \<Rightarrow> state" where
  "loadMappings e s =
     (case MAPPINGS_FILE s of
        None \<Rightarrow> saveMappings e s
      | Some c \<Rightarrow>
          if \<not> readOk e then s
          else (case c of
                  Malformed \<Rightarrow> s
                | Json tbl \<Rightarrow> s\<lparr>TAG_KEY_MAPPING := tbl\<rparr>))"

text \<open>A process starts with \<open>TAG_KEY_MAPPING = {}\<close> and calls \<open>loadMappings\<close>.\<close>

definition startup :: "env \<Rightarrow> fileContent option \<Rightarrow> state" where
  "startup e f = loadMappings e \<lparr>TAG_KEY_MAPPING = TObject Map.empty, MAPPINGS_FILE = f\<rparr>"

section \<open>The assignment prompt\<close>

definition askForKeyAssignment :: "string \<Rightarrow> string option" where
  "askForKeyAssignment ans =
     (let keyName = toLowerCase (trim ans)
      in if keyName = [] then None else Some keyName)"

section \<open>The key tables\<close>

definition KEY_MAPPINGS :: "(string \<times> string) list" where
  "KEY_MAPPINGS =
     [(''left'', ''{LEFT}''), (''right'', ''{RIGHT}''), (''down'', ''{DOWN}''),
      (''up'', ''{UP}''), (''enter'', ''{ENTER}''), (''return'', ''{ENTER}''),
      (''space'', '' ''), (''escape'', ''{ESC}''), (''esc'', ''{ESC}''),
      (''tab'', ''{TAB}''), (''delete'', ''{DELETE}''), (''backspace'', ''{BS}''),
      (''home'', ''{HOME}''), (''end'', ''{END}''), (''pageup'', ''{PGUP}''),
      (''pagedown'', ''{PGDN}''),
      (''arrowleft'', ''{LEFT}''), (''arrowright'', ''{RIGHT}''),
      (''arrowdown'', ''{DOWN}''), (''arrowup'', ''{UP}''),
      (''0'', ''0''), (''1'', ''1''), (''2'', ''2''), (''3'', ''3''), (''4'', ''4''),
      (''5'', ''5''), (''6'', ''6''), (''7'', ''7''), (''8'', ''8''), (''9'', ''9''),
      (''a'', ''A''), (''b'', ''B''), (''c'', ''C''), (''d'', ''D''), (''e'', ''E''),
      (''f'', ''F''), (''g'', ''G''), (''h'', ''H''), (''i'', ''I''), (''j'', ''J''),
      (''k'', ''K''), (''l'', ''L''), (''m'', ''M''), (''n'', ''N''), (''o'', ''O''),
      (''p'', ''P''), (''q'', ''Q''), (''r'', ''R''), (''s'', ''S''), (''t'', ''T''),
      (''u'', ''U''), (''v'', ''V''), (''w'', ''W''), (''x'', ''X''), (''y'', ''Y''),
      (''z'', ''Z'')]"

definition KEY_CODES :: "(string \<times> nat) list" where
  "KEY_CODES =
     [(''left'', 123), (''right'', 124), (''down'', 125), (''up'', 126),
      (''enter'', 36), (''return'', 36), (''space'', 49), (''escape'', 53),
      (''tab'', 48), (''delete'', 51), (''backspace'', 51), (''home'', 115),
      (''end'', 119), (''pageup'', 116), (''pagedown'', 121),
      (''arrowleft'', 123), (''arrowright'', 124), (''arrowdown'', 125),
      (''arrowup'', 126),
      (''0'', 29), (''1'', 18), (''2'', 19), (''3'', 20), (''4'', 21),
      (''5'', 23), (''6'', 22), (''7'', 26), (''8'', 28), (''9'', 25),
      (''a'', 0), (''b'', 11), (''c'', 8), (''d'', 2), (''e'', 14), (''f'', 3),
      (''g'', 5), (''h'', 4), (''i'', 34), (''j'', 38), (''k'', 40), (''l'', 37),
      (''m'', 46), (''n'', 45), (''o'', 31), (''p'', 35), (''q'', 12), (''r'', 15),
      (''s'', 1), (''t'', 17), (''u'', 32), (''v'', 9), (''w'', 13), (''x'', 7),
      (''y'', 16), (''z'', 6)]"

section \<open>Key injection\<close>

text \<open>
  \<open>pressKey\<close> returns a promise. It is rejected before any child process is started
  (\<open>Rejected\<close>): by the unknown-key branch, by a \<open>TypeError\<close> thrown in the
  executor (calling \<open>toLowerCase\<close> on a value that is not a string, or
  \<open>replace\<close> on an inherited member), or by a failed write of the temporary script.
  Otherwise \<open>exec\<close> is called with the command that carries the key descriptor
  (\<open>Exec\<close>), and the flag tells whether the child process reported no error.
\<close>

datatype press_error = UnknownKey | TypeError | TempFileError

datatype 'd press = Rejected press_error | Exec 'd bool

definition pressKey_win :: "env \<Rightarrow> json slot \<Rightarrow> string press" where
  "pressKey_win e keyName =
     (case keyName of
        Own (JString k) \<Rightarrow>
          (let normalizedKey = trim (toLowerCase k)
           in if \<not> js_in normalizedKey (map_of KEY_MAPPINGS) then Rejected UnknownKey
              else (case js_get (map_of KEY_MAPPINGS) normalizedKey of
                      Own sendKeyCode \<Rightarrow>
                        if tmpWriteOk e then Exec sendKeyCode (execOk e)
                        else Rejected TempFileError
                    | _ \<Rightarrow> Rejected TypeError))
      | _ \<Rightarrow> Rejected TypeError)"

text \<open>
  The macOS variant looks up \<open>KEY_CODES[keyName.toLowerCase()]\<close>, without trimming,
  and tests the result against \<open>undefined\<close>; an inherited member passes that test
  and is interpolated into the script.
\<close>

definition pressKey_mac :: "env \<Rightarrow> json slot \<Rightarrow> nat slot press" where
  "pressKey_mac e keyName =
     (case keyName of
        Own (JString k) \<Rightarrow>
          (let keyCode = js_get (map_of KEY_CODES) (toLowerCase k)
           in if keyCode = Missing then Rejected UnknownKey
              else Exec keyCode (execOk e))
      | _ \<Rightarrow> Rejected TypeError)"

section \<open>The card handler\<close>

text \<open>
  A card event: its type, \<open>card.uid\<close> when present, and \<open>card.data.toString('hex')\<close>
  when \<open>card.data\<close> is present.
\<close>

record card =
  ctype :: string
  uid :: "string option"
  dataHex :: "string option"

definition tagUID :: "card \<Rightarrow> string option" where
  "tagUID c =
     (if ctype c = ''TAG_ISO_14443_3'' \<and> uid c \<noteq> None \<and> uid c \<noteq> Some []
      then uid c
      else if ctype c = ''TAG_ISO_14443_4'' \<and> dataHex c \<noteq> None then dataHex c
      else None)"

text \<open>
  How an event ends. \<open>Unhandled\<close>: the lookup (line 165) or the assignment (line 184)
  threw; both stand outside the \<open>try\<close> block, so the promise of the handler is
  rejected and nothing handles it. What the runtime then does with the process is not
  modelled.
\<close>

datatype 'd outcome =
    NoIdentifier
  | Unhandled
  | SkippedAssignment
  | InvalidKey string
  | Dispatch "'d press"

record 'd reaction =
  after :: state
  prompted :: bool
  outcome :: "'d outcome"

text \<open>
  The handler of the \<open>card\<close> event. The two programs differ only in the key table
  (\<open>inTable k\<close> is \<open>k in KEY_MAPPINGS\<close>, respectively \<open>k in KEY_CODES\<close>) and
  in \<open>pressKey\<close>.
\<close>

definition onCard ::
  "(string \<Rightarrow> bool) \<Rightarrow> (env \<Rightarrow> json slot \<Rightarrow> 'd press) \<Rightarrow> env \<Rightarrow> state \<Rightarrow> card \<Rightarrow> 'd reaction"
where
  "onCard inTable pressKey e s c =
     (case tagUID c of
        None \<Rightarrow> \<lparr>after = s, prompted = False, outcome = NoIdentifier\<rparr>
      | Some t \<Rightarrow>
          if t = [] then \<lparr>after = s, prompted = False, outcome = NoIdentifier\<rparr>
          else
            (case tableGet e (TAG_KEY_MAPPING s) t of
               None \<Rightarrow> \<lparr>after = s, prompted = False, outcome = Unhandled\<rparr>
             | Some assignedKey \<Rightarrow>
                 if \<not> truthy assignedKey then
                   (case askForKeyAssignment (answer e) of
                      None \<Rightarrow> \<lparr>after = s, prompted = True, outcome = SkippedAssignment\<rparr>
                    | Some keyName \<Rightarrow>
                        (let normalizedKey = trim (toLowerCase keyName)
                         in if \<not> inTable normalizedKey
                            then \<lparr>after = s, prompted = True, outcome = InvalidKey keyName\<rparr>
                            else
                              (case tableSet e (TAG_KEY_MAPPING s) t normalizedKey of
                                 None \<Rightarrow> \<lparr>after = s, prompted = True, outcome = Unhandled\<rparr>
                               | Some tbl \<Rightarrow>
                                   \<lparr>after = saveMappings e (s\<lparr>TAG_KEY_MAPPING := tbl\<rparr>),
                                    prompted = True,
                                    outcome = Dispatch (pressKey e (Own (JString normalizedKey)))\<rparr>)))
                 else \<lparr>after = s, prompted = False, outcome = Dispatch (pressKey e assignedKey)\<rparr>))"

definition onCard_win :: "env \<Rightarrow> state \<Rightarrow> card \<Rightarrow> string reaction" where
  "onCard_win = onCard (\<lambda>k. js_in k (map_of KEY_MAPPINGS)) pressKey_win"

definition onCard_mac :: "env \<Rightarrow> state \<Rightarrow> card \<Rightarrow> nat slot reaction" where
  "onCard_mac = onCard (\<lambda>k. js_in k (map_of KEY_CODES)) pressKey_mac"

text \<open>Whether the event started the child process that injects the key.\<close>

fun injected :: "'d outcome \<Rightarrow> bool" where
  "injected (Dispatch (Exec d ok)) = True"
| "injected _ = False"

text \<open>
  The event carries the tag identifier \<open>t\<close>: the handler extracts it and it passes
  the test \<open>!tagUID\<close>.
\<close>

definition identified :: "card \<Rightarrow> string \<Rightarrow> bool" where
  "identified c t = (tagUID c = Some t \<and> t \<noteq> [])"

text \<open>
  The tag \<open>t\<close> has a stored mapping: the table has an own entry for \<open>t\<close>
  whose value passes the handler's test \<open>!assignedKey\<close>. (The empty string,
  \<open>null\<close>, \<open>false\<close> and \<open>0\<close> do not: the handler treats such an entry
  as no mapping.)
\<close>

definition hasMapping :: "state \<Rightarrow> string \<Rightarrow> bool" where
  "hasMapping s t =
     (case own (TAG_KEY_MAPPING s) t of None \<Rightarrow> False | Some v \<Rightarrow> truthy (Own v))"

text \<open>
  The same card tapped again and again: each event is handled from the state the event
  before it left, under its own environment.
\<close>

fun taps :: "(env \<Rightarrow> state \<Rightarrow> card \<Rightarrow> 'd reaction) \<Rightarrow> state \<Rightarrow> card \<Rightarrow> env list \<Rightarrow> 'd reaction list" where
  "taps h s c [] = []"
| "taps h s c (e # es) = h e s c # taps h (after (h e s c)) c es"

section \<open>The states of a store that only the program wrote\<close>

text \<open>
  A first process starts with no mappings file. From then on cards are tapped, and the
  process is stopped and a new one started on the file the last one left, in any order
  and under any environment.
\<close>

inductive reachable :: "(env \<Rightarrow> state \<Rightarrow> card \<Rightarrow> 'd reaction) \<Rightarrow> state \<Rightarrow> bool"
  for h :: "env \<Rightarrow> state \<Rightarrow> card \<Rightarrow> 'd reaction"
where
  first_start: "reachable h (startup e None)"
| tap: "reachable h s \<Longrightarrow> reachable h (after (h e s c))"
| restart: "reachable h s \<Longrightarrow> reachable h (startup e (MAPPINGS_FILE s))"

text \<open>
  The invariant of these states: the table is a plain object, and each of its values is
  a string that is trimmed, lowercased and passed the validation; the file, when it
  parses, holds such a table.
\<close>

definition validated :: "(string \<Rightarrow> bool) \<Rightarrow> table \<Rightarrow> bool" where
  "validated inTable tbl =
     (\<exists>m. tbl = TObject m
        \<and> (\<forall>k v. m k = Some v \<longrightarrow> (\<exists>a. v = JString a \<and> trim (toLowerCase a) = a \<and> inTable a)))"

definition ownStore :: "(string \<Rightarrow> bool) \<Rightarrow> state \<Rightarrow> bool" where
  "ownStore inTable s =
     (validated inTable (TAG_KEY_MAPPING s)
      \<and> (case MAPPINGS_FILE s of
            None \<Rightarrow> True
          | Some Malformed \<Rightarrow> True
          | Some (Json tbl) \<Rightarrow> validated inTable tbl))"

section \<open>The inputs of the scenarios\<close>

text \<open>
  The members of \<open>String.prototype\<close> and \<open>Array.prototype\<close> in ECMAScript 2023
  (with its Annex B).
\<close>

definition stringPrototypeKeys :: "string list" where
  "stringPrototypeKeys =
     [''length'', ''constructor'', ''anchor'', ''at'', ''big'', ''blink'', ''bold'',
      ''charAt'', ''charCodeAt'', ''codePointAt'', ''concat'', ''endsWith'', ''fixed'',
      ''fontcolor'', ''fontsize'', ''includes'', ''indexOf'', ''italics'',
      ''lastIndexOf'', ''link'', ''localeCompare'', ''match'', ''matchAll'',
      ''normalize'', ''padEnd'', ''padStart'', ''repeat'', ''replace'', ''replaceAll'',
      ''search'', ''slice'', ''small'', ''split'', ''startsWith'', ''strike'', ''sub'',
      ''substr'', ''substring'', ''sup'', ''toLocaleLowerCase'', ''toLocaleUpperCase'',
      ''toLowerCase'', ''toString'', ''toUpperCase'', ''trim'', ''trimEnd'',
      ''trimLeft'', ''trimRight'', ''trimStart'', ''valueOf'']"

definition arrayPrototypeKeys :: "string list" where
  "arrayPrototypeKeys =
     [''length'', ''constructor'', ''at'', ''concat'', ''copyWithin'', ''entries'',
      ''every'', ''fill'', ''filter'', ''find'', ''findIndex'', ''findLast'',
      ''findLastIndex'', ''flat'', ''flatMap'', ''forEach'', ''includes'', ''indexOf'',
      ''join'', ''keys'', ''lastIndexOf'', ''map'', ''pop'', ''push'', ''reduce'',
      ''reduceRight'', ''reverse'', ''shift'', ''slice'', ''some'', ''sort'', ''splice'',
      ''toLocaleString'', ''toReversed'', ''toSorted'', ''toSpliced'', ''toString'',
      ''unshift'', ''values'', ''with'']"

text \<open>
  A tap of the tag with UID \<open>04A224B2\<close>; an operator who gives the answer, in an
  environment in which every file operation and the child process succeed (the scenarios
  assign to no array length and truncate no file, so that the last two fields are never
  consulted); the same operator on a disk that refuses every write of the mappings file;
  the state of a process started without a mappings file; and a store that maps the tag
  to \<open>right\<close>.
\<close>

definition tag_04A224B2 :: card where
  "tag_04A224B2 = \<lparr>ctype = ''TAG_ISO_14443_3'', uid = Some ''04A224B2'', dataHex = None\<rparr>"

definition operator :: "string \<Rightarrow> env" where
  "operator ans =
     \<lparr>answer = ans, readOk = True, fileWrite = Written, tmpWriteOk = True, execOk = True,
      stringMembers = stringPrototypeKeys, arrayMembers = arrayPrototypeKeys,
      numericLiteral = (\<lambda>v. None), truncatedNumber = None\<rparr>"


definition emptyStore :: state where
  "emptyStore =
     \<lparr>TAG_KEY_MAPPING = TObject Map.empty, MAPPINGS_FILE = Some (Json (TObject Map.empty))\<rparr>"

definition mappedStore :: state where
  "mappedStore =
     \<lparr>TAG_KEY_MAPPING = TObject [''04A224B2'' \<mapsto> JString ''right''],
      MAPPINGS_FILE = Some (Json (TObject [''04A224B2'' \<mapsto> JString ''right'']))\<rparr>"

section \<open>Trimming and lowercasing\<close>

lemma of_char_lowerChar:
  "(of_char (lowerChar c) :: nat) =
     (if (0x41 \<le> (of_char c :: nat) \<and> (of_char c :: nat) \<le> 0x5A)
        \<or> (0xC0 \<le> (of_char c :: nat) \<and> (of_char c :: nat) \<le> 0xDE \<and> (of_char c :: nat) \<noteq> 0xD7)
      then of_char c + 0x20 else of_char c)"
  by (simp add: lowerChar_def Let_def)

lemma isWhiteSpace_lowerChar: "isWhiteSpace (lowerChar c) = isWhiteSpace c"
  unfolding isWhiteSpace_def of_char_lowerChar by auto

lemma lowerChar_idem: "lowerChar (lowerChar c) = lowerChar c"
  by (rule of_char_eqI [where ?'a = nat]) (simp only: of_char_lowerChar, auto)

lemma toLowerCase_idem: "toLowerCase (toLowerCase s) = toLowerCase s"
  by (simp add: toLowerCase_def lowerChar_idem)

lemma toLowerCase_Nil_iff: "toLowerCase s = [] \<longleftrightarrow> s = []"
  by (simp add: toLowerCase_def)

lemma dropWhile_ws_toLowerCase:
  "dropWhile isWhiteSpace (toLowerCase s) = toLowerCase (dropWhile isWhiteSpace s)"
  by (induction s) (simp_all add: toLowerCase_def isWhiteSpace_lowerChar)

lemma rev_toLowerCase: "rev (toLowerCase s) = toLowerCase (rev s)"
  by (simp add: toLowerCase_def rev_map)

lemma trim_toLowerCase: "trim (toLowerCase s) = toLowerCase (trim s)"
  by (simp add: trim_def dropWhile_ws_toLowerCase rev_toLowerCase)

lemma dropWhile_fixed: "xs = [] \<or> \<not> P (hd xs) \<Longrightarrow> dropWhile P xs = xs"
  by (cases xs) auto

lemma trim_ends:
  "trim s = [] \<or> (\<not> isWhiteSpace (hd (trim s)) \<and> \<not> isWhiteSpace (last (trim s)))"
proof (cases "trim s = []")
  case True
  then show ?thesis by simp
next
  case False
  define u where "u = dropWhile isWhiteSpace s"
  define v where "v = dropWhile isWhiteSpace (rev u)"
  have t: "trim s = rev v" by (simp add: trim_def u_def v_def)
  with False have v: "v \<noteq> []" by simp
  then have hv: "\<not> isWhiteSpace (hd v)" unfolding v_def by (rule hd_dropWhile)
  from v obtain x where x: "x \<in> set (rev u)" "\<not> isWhiteSpace x"
    unfolding v_def by auto
  then have "last v = last (rev u)" unfolding v_def by (rule dropWhile_last)
  moreover from x have u: "u \<noteq> []" by auto
  ultimately have "last v = hd u" by (simp add: last_rev)
  moreover from u have "\<not> isWhiteSpace (hd u)" unfolding u_def by (rule hd_dropWhile)
  ultimately have "\<not> isWhiteSpace (last v)" by simp
  with hv v show ?thesis by (simp add: t hd_rev last_rev)
qed

lemma trim_idem: "trim (trim s) = trim s"
proof -
  from trim_ends [of s] have a: "dropWhile isWhiteSpace (trim s) = trim s"
    by (intro dropWhile_fixed) auto
  from trim_ends [of s] have "dropWhile isWhiteSpace (rev (trim s)) = rev (trim s)"
    by (intro dropWhile_fixed) (auto simp: hd_rev)
  with a show ?thesis by (simp add: trim_def [of "trim s"])
qed

lemma dropWhile_all_iff: "(\<forall>x \<in> set (dropWhile P xs). P x) \<longleftrightarrow> (\<forall>x \<in> set xs. P x)"
  by (induction xs) auto

lemma trim_Nil_iff: "trim s = [] \<longleftrightarrow> (\<forall>c \<in> set s. isWhiteSpace c)"
  by (simp add: trim_def dropWhile_all_iff)

text \<open>The name the handler validates is the answer, trimmed and lowercased once.\<close>

lemma normalize_keyName:
  "askForKeyAssignment ans = Some keyName \<Longrightarrow> trim (toLowerCase keyName) = keyName"
  by (auto simp: askForKeyAssignment_def Let_def toLowerCase_idem trim_toLowerCase trim_idem
      split: if_splits)

lemma askForKeyAssignment_None_iff:
  "askForKeyAssignment ans = None \<longleftrightarrow> (\<forall>c \<in> set ans. isWhiteSpace c)"
  by (simp add: askForKeyAssignment_def Let_def toLowerCase_Nil_iff trim_Nil_iff)


lemmas string_eval =
  trim_def toLowerCase_def lowerChar_def isWhiteSpace_def char_of_def bit_Suc_0_iff

section \<open>Property lookup\<close>

lemma js_in_iff: "js_in k obj \<longleftrightarrow> obj k \<noteq> None \<or> k \<in> set objectPrototypeKeys"
  by (auto simp: js_in_def)

lemma js_in_own: "k \<in> fst ` set tbl \<Longrightarrow> js_in k (map_of tbl)"
  by (simp add: js_in_iff map_of_eq_None_iff)

lemma js_get_own: "map_of tbl k = Some d \<Longrightarrow> js_get (map_of tbl) k = Own d"
  by (simp add: js_get_def)

lemma js_in_get: "js_in k obj \<longleftrightarrow> js_get obj k \<noteq> Missing"
  by (auto simp: js_in_iff js_get_def split: option.splits)



lemma js_set_Some:
  "js_set m t k u = Some v \<Longrightarrow> m u = Some v \<or> v = JString k"
  by (auto simp: js_set_def split: if_splits)

lemma tableGet_TObject: "tableGet e (TObject m) k = Some (js_get m k)"
  by (simp add: tableGet_def js_get_def split: option.splits)

lemma tableGet_own: "own tbl k = Some v \<Longrightarrow> tableGet e tbl k = Some (Own v)"
  by (auto simp: tableGet_def)

lemma tableGet_Own_iff: "tableGet e tbl k = Some (Own v) \<longleftrightarrow> own tbl k = Some v"
  by (auto simp: tableGet_def split: option.splits if_splits)

section \<open>The branches of the handler\<close>

lemma onCard_null:
  assumes "identified c t" and "tableGet e (TAG_KEY_MAPPING s) t = None"
  shows "onCard inTable pressKey e s c = \<lparr>after = s, prompted = False, outcome = Unhandled\<rparr>"
  using assms by (simp add: onCard_def identified_def)

lemma onCard_hit:
  assumes "identified c t" and "tableGet e (TAG_KEY_MAPPING s) t = Some x" and "truthy x"
  shows "onCard inTable pressKey e s c =
           \<lparr>after = s, prompted = False, outcome = Dispatch (pressKey e x)\<rparr>"
  using assms by (simp add: onCard_def identified_def)

lemma onCard_skip:
  assumes "identified c t" and "tableGet e (TAG_KEY_MAPPING s) t = Some x" and "\<not> truthy x"
    and "askForKeyAssignment (answer e) = None"
  shows "onCard inTable pressKey e s c =
           \<lparr>after = s, prompted = True, outcome = SkippedAssignment\<rparr>"
  using assms by (simp add: onCard_def identified_def)

lemma onCard_invalid:
  assumes "identified c t" and "tableGet e (TAG_KEY_MAPPING s) t = Some x" and "\<not> truthy x"
    and "askForKeyAssignment (answer e) = Some k" and "\<not> inTable k"
  shows "onCard inTable pressKey e s c =
           \<lparr>after = s, prompted = True, outcome = InvalidKey k\<rparr>"
  using assms normalize_keyName [of "answer e" k]
  by (simp add: onCard_def identified_def Let_def)

lemma onCard_throw:
  assumes "identified c t" and "tableGet e (TAG_KEY_MAPPING s) t = Some x" and "\<not> truthy x"
    and "askForKeyAssignment (answer e) = Some k" and "inTable k"
    and "tableSet e (TAG_KEY_MAPPING s) t k = None"
  shows "onCard inTable pressKey e s c =
           \<lparr>after = s, prompted = True, outcome = Unhandled\<rparr>"
  using assms normalize_keyName [of "answer e" k]
  by (simp add: onCard_def identified_def Let_def)

lemma onCard_assign:
  assumes "identified c t" and "tableGet e (TAG_KEY_MAPPING s) t = Some x" and "\<not> truthy x"
    and "askForKeyAssignment (answer e) = Some k" and "inTable k"
    and "tableSet e (TAG_KEY_MAPPING s) t k = Some tbl"
  shows "onCard inTable pressKey e s c =
           \<lparr>after = saveMappings e (s\<lparr>TAG_KEY_MAPPING := tbl\<rparr>),
            prompted = True,
            outcome = Dispatch (pressKey e (Own (JString k)))\<rparr>"
  using assms normalize_keyName [of "answer e" k]
  by (simp add: onCard_def identified_def Let_def)

text \<open>Every event ends in one of these branches.\<close>

lemma onCard_cases:
  obtains
    (no_identifier) "onCard inTable pressKey e s c = \<lparr>after = s, prompted = False, outcome = NoIdentifier\<rparr>"
  | (null) "onCard inTable pressKey e s c = \<lparr>after = s, prompted = False, outcome = Unhandled\<rparr>"
  | (hit) t x where "identified c t" "tableGet e (TAG_KEY_MAPPING s) t = Some x" "truthy x"
      "onCard inTable pressKey e s c = \<lparr>after = s, prompted = False, outcome = Dispatch (pressKey e x)\<rparr>"
  | (skip) "onCard inTable pressKey e s c = \<lparr>after = s, prompted = True, outcome = SkippedAssignment\<rparr>"
  | (invalid) k where "onCard inTable pressKey e s c = \<lparr>after = s, prompted = True, outcome = InvalidKey k\<rparr>"
  | (throw) "onCard inTable pressKey e s c = \<lparr>after = s, prompted = True, outcome = Unhandled\<rparr>"
  | (assign) t x k tbl where "identified c t" "tableGet e (TAG_KEY_MAPPING s) t = Some x"
      "\<not> truthy x" "askForKeyAssignment (answer e) = Some k" "inTable k"
      "tableSet e (TAG_KEY_MAPPING s) t k = Some tbl"
      "onCard inTable pressKey e s c =
         \<lparr>after = saveMappings e (s\<lparr>TAG_KEY_MAPPING := tbl\<rparr>), prompted = True,
          outcome = Dispatch (pressKey e (Own (JString k)))\<rparr>"
proof (cases "\<exists>t. identified c t")
  case False
  then have "onCard inTable pressKey e s c = \<lparr>after = s, prompted = False, outcome = NoIdentifier\<rparr>"
    by (auto simp: onCard_def identified_def split: option.splits)
  then show ?thesis by (rule no_identifier)
next
  case True
  then obtain t where t: "identified c t" ..
  show ?thesis
  proof (cases "tableGet e (TAG_KEY_MAPPING s) t")
    case None
    with t show ?thesis by (intro null onCard_null)
  next
    case (Some x)
    show ?thesis
    proof (cases "truthy x")
      case True
      with t Some show ?thesis by (intro hit [of t x] onCard_hit)
    next
      case False
      show ?thesis
      proof (cases "askForKeyAssignment (answer e)")
        case None
        with t Some False show ?thesis by (intro skip onCard_skip)
      next
        case k: (Some k)
        show ?thesis
        proof (cases "inTable k")
          case False
          with t Some \<open>\<not> truthy x\<close> k show ?thesis by (intro invalid [of k] onCard_invalid)
        next
          case True
          show ?thesis
          proof (cases "tableSet e (TAG_KEY_MAPPING s) t k")
            case None
            with t Some False k True show ?thesis by (intro throw onCard_throw)
          next
            case tbl: (Some tbl)
            with t Some False k True show ?thesis
              by (intro assign [of t x k tbl] onCard_assign)
          qed
        qed
      qed
    qed
  qed
qed

section \<open>Saving and loading\<close>

lemma TAG_KEY_MAPPING_saveMappings [simp]:
  "TAG_KEY_MAPPING (saveMappings e s) = TAG_KEY_MAPPING s"
  by (simp add: saveMappings_def split: write_result.splits)


lemma startup_Json:
  "readOk e \<Longrightarrow> TAG_KEY_MAPPING (startup e (Some (Json tbl))) = tbl"
  by (simp add: startup_def loadMappings_def)


section \<open>What pressKey returns\<close>

lemma pressKey_win_not_string:
  "(\<And>k. x \<noteq> Own (JString k)) \<Longrightarrow> pressKey_win e x = Rejected TypeError"
  by (auto simp: pressKey_win_def split: slot.splits json.splits)

lemma pressKey_mac_not_string:
  "(\<And>k. x \<noteq> Own (JString k)) \<Longrightarrow> pressKey_mac e x = Rejected TypeError"
  by (auto simp: pressKey_mac_def split: slot.splits json.splits)

lemma pressKey_win_own:
  "map_of KEY_MAPPINGS (trim (toLowerCase k)) = Some d \<Longrightarrow>
     pressKey_win e (Own (JString k)) =
       (if tmpWriteOk e then Exec d (execOk e) else Rejected TempFileError)"
  by (simp add: pressKey_win_def js_in_iff js_get_def)

lemma pressKey_win_other:
  "map_of KEY_MAPPINGS (trim (toLowerCase k)) = None \<Longrightarrow>
     pressKey_win e (Own (JString k)) =
       (if trim (toLowerCase k) \<in> set objectPrototypeKeys then Rejected TypeError
        else Rejected UnknownKey)"
  by (simp add: pressKey_win_def js_in_iff js_get_def)

lemma pressKey_win_normalized:
  "trim (toLowerCase x) = trim (toLowerCase y) \<Longrightarrow>
     pressKey_win e (Own (JString x)) = pressKey_win e (Own (JString y))"
  by (simp add: pressKey_win_def)

text \<open>The unknown-key branch is the branch of the names for which \<open>in\<close> is false.\<close>

lemma pressKey_win_unknown_iff:
  "pressKey_win e x = Rejected UnknownKey \<longleftrightarrow>
     (\<exists>k. x = Own (JString k) \<and> \<not> js_in (trim (toLowerCase k)) (map_of KEY_MAPPINGS))"
  by (auto simp: pressKey_win_def Let_def split: slot.splits json.splits if_splits)

lemma pressKey_mac_unknown_iff:
  "pressKey_mac e x = Rejected UnknownKey \<longleftrightarrow>
     (\<exists>k. x = Own (JString k) \<and> \<not> js_in (toLowerCase k) (map_of KEY_CODES))"
  by (auto simp: pressKey_mac_def Let_def js_in_get split: slot.splits json.splits if_splits)

section \<open>The two key tables\<close>

lemma keys_split:
  "map fst KEY_MAPPINGS = take 8 (map fst KEY_CODES) @ ''esc'' # drop 8 (map fst KEY_CODES)"
  by (simp add: KEY_MAPPINGS_def KEY_CODES_def)

lemma set_insert_middle: "set (take n xs @ x # drop n xs) = insert x (set xs)"
proof -
  have "set (take n xs @ x # drop n xs) = insert x (set (take n xs @ drop n xs))"
    by (simp del: append_take_drop_id)
  then show ?thesis by simp
qed

lemma keys_KEY_MAPPINGS:
  "fst ` set KEY_MAPPINGS = insert ''esc'' (fst ` set KEY_CODES)"
proof -
  have "fst ` set KEY_MAPPINGS = set (map fst KEY_MAPPINGS)" by simp
  also have "\<dots> = insert ''esc'' (set (map fst KEY_CODES))"
    unfolding keys_split by (rule set_insert_middle)
  finally show ?thesis by simp
qed

section \<open>Declining the assignment\<close>

lemma identified_tag: "identified tag_04A224B2 ''04A224B2''"
  by (simp add: identified_def tagUID_def tag_04A224B2_def)

lemma emptyStore_unmapped: "\<not> hasMapping emptyStore ''04A224B2''"
  by (simp add: hasMapping_def emptyStore_def)

lemma emptyStore_lookup: "tableGet e (TAG_KEY_MAPPING emptyStore) ''04A224B2'' = Some Missing"
  by (simp add: emptyStore_def tableGet_TObject js_get_def objectPrototypeKeys_def)

lemma onCard_decline:
  assumes "identified c t" and "\<not> hasMapping s t"
    and "\<forall>ch \<in> set (answer e). isWhiteSpace ch"
    and "pressKey e Inherited = Rejected TypeError"
  shows "onCard inTable pressKey e s c =
           \<lparr>after = s,
            prompted = (case tableGet e (TAG_KEY_MAPPING s) t of
                          None \<Rightarrow> False | Some Inherited \<Rightarrow> False | Some x \<Rightarrow> True),
            outcome = (case tableGet e (TAG_KEY_MAPPING s) t of
                         None \<Rightarrow> Unhandled
                       | Some Inherited \<Rightarrow> Dispatch (Rejected TypeError)
                       | Some x \<Rightarrow> SkippedAssignment)\<rparr>"
proof (cases "tableGet e (TAG_KEY_MAPPING s) t")
  case None
  with assms(1) show ?thesis by (simp add: onCard_null [of c t])
next
  case (Some x)
  from assms(3) have ask: "askForKeyAssignment (answer e) = None"
    by (simp add: askForKeyAssignment_None_iff)
  show ?thesis
  proof (cases x)
    case Inherited
    with Some assms(1,4) show ?thesis by (simp add: onCard_hit [of c t])
  next
    case Missing
    with Some assms(1) ask show ?thesis by (simp add: onCard_skip [of c t])
  next
    case (Own v)
    with Some have "own (TAG_KEY_MAPPING s) t = Some v" by (simp add: tableGet_Own_iff)
    with assms(2) have "\<not> truthy (Own v)" by (simp add: hasMapping_def)
    with Some Own assms(1) ask show ?thesis by (simp add: onCard_skip [of c t])
  qed
qed

lemma outcome_decline_not_injected:
  "\<not> injected (case x of None \<Rightarrow> Unhandled
                 | Some Inherited \<Rightarrow> Dispatch (Rejected TypeError)
                 | Some y \<Rightarrow> SkippedAssignment)"
  by (simp split: option.splits slot.splits)

text \<open>
  C3. A tag \<open>t\<close> with no stored mapping is tapped and the operator answers the
  prompt with the empty string: the in-memory table and the file are as before, so
  \<open>t\<close> still has no mapping, and no child process was started to inject a key.
  This holds for the Windows and for the macOS program. (When the table is \<open>null\<close>
  the lookup throws. For an identifier that has no own entry and names a member of the
  prototype chain the lookup finds the inherited member, no prompt is shown and
  \<open>pressKey\<close> is rejected with a \<open>TypeError\<close>. Otherwise the event ends as
  skipped.)
\<close>

theorem decline_leaves_no_entry:
  assumes "identified c t" and "\<not> hasMapping s t" and "answer e = []"
  shows "after (onCard_win e s c) = s
       \<and> \<not> hasMapping (after (onCard_win e s c)) t
       \<and> \<not> injected (outcome (onCard_win e s c))
       \<and> outcome (onCard_win e s c) =
           (case tableGet e (TAG_KEY_MAPPING s) t of
              None \<Rightarrow> Unhandled
            | Some Inherited \<Rightarrow> Dispatch (Rejected TypeError)
            | Some x \<Rightarrow> SkippedAssignment)
       \<and> after (onCard_mac e s c) = s
       \<and> \<not> hasMapping (after (onCard_mac e s c)) t
       \<and> \<not> injected (outcome (onCard_mac e s c))"
proof -
  from assms(3) have ws: "\<forall>ch \<in> set (answer e). isWhiteSpace ch" by simp
  note w = onCard_decline [OF assms(1,2) ws, of pressKey_win "\<lambda>k. js_in k (map_of KEY_MAPPINGS)",
      folded onCard_win_def, OF pressKey_win_not_string]
  note m = onCard_decline [OF assms(1,2) ws, of pressKey_mac "\<lambda>k. js_in k (map_of KEY_CODES)",
      folded onCard_mac_def, OF pressKey_mac_not_string]
  show ?thesis using assms(2) by (simp add: w m outcome_decline_not_injected)
qed

theorem decline_leaves_no_entry_witness:
  "identified tag_04A224B2 ''04A224B2''
   \<and> \<not> hasMapping emptyStore ''04A224B2''
   \<and> answer (operator []) = []
   \<and> after (onCard_win (operator []) emptyStore tag_04A224B2) = emptyStore
   \<and> outcome (onCard_win (operator []) emptyStore tag_04A224B2) = SkippedAssignment
   \<and> \<not> injected (outcome (onCard_win (operator []) emptyStore tag_04A224B2))
   \<and> after (onCard_mac (operator []) emptyStore tag_04A224B2) = emptyStore
   \<and> \<not> injected (outcome (onCard_mac (operator []) emptyStore tag_04A224B2))"
proof -
  have h3: "answer (operator []) = []" by (simp add: operator_def)
  from decline_leaves_no_entry [OF identified_tag emptyStore_unmapped h3]
    identified_tag emptyStore_unmapped h3
  show ?thesis by (simp add: emptyStore_lookup)
qed

section \<open>A whitespace-only answer\<close>

lemma onCard_answer_cong:
  assumes "askForKeyAssignment (answer e) = askForKeyAssignment (answer e')"
    and "\<And>k. pressKey e k = pressKey e' k"
    and "\<And>tbl k. tableGet e tbl k = tableGet e' tbl k"
    and "\<And>tbl k v. tableSet e tbl k v = tableSet e' tbl k v"
    and "\<And>s. saveMappings e s = saveMappings e' s"
  shows "onCard inTable pressKey e s c = onCard inTable pressKey e' s c"
proof -
  from assms(2) have "pressKey e = pressKey e'" by (intro ext)
  moreover from assms(3) have "tableGet e = tableGet e'" by (intro ext)
  moreover from assms(4) have "tableSet e = tableSet e'" by (intro ext)
  moreover from assms(5) have "saveMappings e = saveMappings e'" by (intro ext)
  ultimately show ?thesis using assms(1)
    by (simp add: onCard_def Let_def split: option.splits)
qed

lemma pressKey_win_answer: "pressKey_win (e\<lparr>answer := a\<rparr>) k = pressKey_win e k"
  by (simp add: pressKey_win_def Let_def cong: slot.case_cong json.case_cong if_cong)

lemma pressKey_mac_answer: "pressKey_mac (e\<lparr>answer := a\<rparr>) k = pressKey_mac e k"
  by (simp add: pressKey_mac_def Let_def cong: slot.case_cong json.case_cong if_cong)

lemma inherited_answer: "inherited (e\<lparr>answer := a\<rparr>) tbl k = inherited e tbl k"
  by (cases tbl) simp_all

lemma tableGet_answer: "tableGet (e\<lparr>answer := a\<rparr>) tbl k = tableGet e tbl k"
  by (simp add: tableGet_def inherited_answer)

lemma toArrayLength_answer: "toArrayLength (e\<lparr>answer := a\<rparr>) v = toArrayLength e v"
  by (simp add: toArrayLength_def split: option.splits)

lemma tableSet_answer: "tableSet (e\<lparr>answer := a\<rparr>) tbl k v = tableSet e tbl k v"
  by (cases tbl) (simp_all add: toArrayLength_answer)

lemma truncated_answer: "truncated (e\<lparr>answer := a\<rparr>) tbl = truncated e tbl"
  by (induction e tbl rule: truncated.induct) simp_all

lemma saveMappings_answer: "saveMappings (e\<lparr>answer := a\<rparr>) s = saveMappings e s"
  by (simp add: saveMappings_def truncated_answer split: write_result.splits)

text \<open>
  C9. An answer that consists of whitespace only is trimmed to the empty string before
  the emptiness test, so \<open>askForKeyAssignment\<close> resolves to \<open>null\<close> and
  the handler reacts exactly as it does to the empty answer; for a tag with no stored
  mapping the state is unchanged and no child process is started. This holds for the
  Windows and for the macOS program.
\<close>

theorem whitespace_answer_declines:
  assumes "\<forall>ch \<in> set (answer e). isWhiteSpace ch"
    and "identified c t" and "\<not> hasMapping s t"
  shows "askForKeyAssignment (answer e) = None
       \<and> onCard_win e s c = onCard_win (e\<lparr>answer := []\<rparr>) s c
       \<and> after (onCard_win e s c) = s
       \<and> \<not> injected (outcome (onCard_win e s c))
       \<and> onCard_mac e s c = onCard_mac (e\<lparr>answer := []\<rparr>) s c
       \<and> after (onCard_mac e s c) = s
       \<and> \<not> injected (outcome (onCard_mac e s c))"
proof -
  from assms(1) have ask: "askForKeyAssignment (answer e) = None"
    by (simp add: askForKeyAssignment_None_iff)
  moreover have "askForKeyAssignment [] = None"
    by (simp add: askForKeyAssignment_None_iff)
  ultimately have same:
    "askForKeyAssignment (answer e) = askForKeyAssignment (answer (e\<lparr>answer := []\<rparr>))"
    by simp
  have w: "onCard_win e s c = onCard_win (e\<lparr>answer := []\<rparr>) s c"
    unfolding onCard_win_def
    by (rule onCard_answer_cong [OF same])
      (simp_all add: pressKey_win_answer tableGet_answer tableSet_answer saveMappings_answer)
  have m: "onCard_mac e s c = onCard_mac (e\<lparr>answer := []\<rparr>) s c"
    unfolding onCard_mac_def
    by (rule onCard_answer_cong [OF same])
      (simp_all add: pressKey_mac_answer tableGet_answer tableSet_answer saveMappings_answer)
  note dw = onCard_decline [OF assms(2,3,1), of pressKey_win "\<lambda>k. js_in k (map_of KEY_MAPPINGS)",
      folded onCard_win_def, OF pressKey_win_not_string]
  note dm = onCard_decline [OF assms(2,3,1), of pressKey_mac "\<lambda>k. js_in k (map_of KEY_CODES)",
      folded onCard_mac_def, OF pressKey_mac_not_string]
  have "after (onCard_win e s c) = s" "\<not> injected (outcome (onCard_win e s c))"
    "after (onCard_mac e s c) = s" "\<not> injected (outcome (onCard_mac e s c))"
    by (simp_all add: dw dm outcome_decline_not_injected)
  with ask w m show ?thesis by blast
qed

theorem whitespace_answer_declines_witness:
  "answer (operator [CHR '' '', CHR 0x09, CHR 0xA0]) = [CHR '' '', CHR 0x09, CHR 0xA0]
   \<and> isWhiteSpace (CHR '' '') \<and> isWhiteSpace (CHR 0x09) \<and> isWhiteSpace (CHR 0xA0)
   \<and> identified tag_04A224B2 ''04A224B2''
   \<and> \<not> hasMapping emptyStore ''04A224B2''
   \<and> onCard_win (operator [CHR '' '', CHR 0x09, CHR 0xA0]) emptyStore tag_04A224B2
       = onCard_win (operator []) emptyStore tag_04A224B2
   \<and> after (onCard_win (operator [CHR '' '', CHR 0x09, CHR 0xA0]) emptyStore tag_04A224B2) = emptyStore
   \<and> \<not> injected (outcome (onCard_win (operator [CHR '' '', CHR 0x09, CHR 0xA0]) emptyStore tag_04A224B2))"
proof -
  have h1: "\<forall>ch \<in> set (answer (operator [CHR '' '', CHR 0x09, CHR 0xA0])). isWhiteSpace ch"
    by (simp add: operator_def isWhiteSpace_def)
  note h3 = emptyStore_unmapped
  have upd: "operator [CHR '' '', CHR 0x09, CHR 0xA0]\<lparr>answer := []\<rparr> = operator []"
    by (simp add: operator_def)
  have h0: "answer (operator [CHR '' '', CHR 0x09, CHR 0xA0]) = [CHR '' '', CHR 0x09, CHR 0xA0]"
    by (simp add: operator_def)
  have ws: "isWhiteSpace (CHR '' '')" "isWhiteSpace (CHR 0x09)" "isWhiteSpace (CHR 0xA0)"
    by (simp_all add: isWhiteSpace_def)
  note w = whitespace_answer_declines [OF h1 identified_tag h3, unfolded upd]
  from w h0 ws identified_tag h3 show ?thesis by blast
qed

section \<open>Tapping a mapped tag\<close>

lemma taps_hit:
  assumes "identified c t" and "own (TAG_KEY_MAPPING s) t = Some v" and "truthy (Own v)"
  shows "taps (onCard inTable pressKey) s c es =
           map (\<lambda>e. \<lparr>after = s, prompted = False, outcome = Dispatch (pressKey e (Own v))\<rparr>) es"
proof (induction es)
  case Nil
  show ?case by simp
next
  case (Cons e es)
  from assms(2) have "tableGet e (TAG_KEY_MAPPING s) t = Some (Own v)" by (rule tableGet_own)
  with assms(1,3) have "onCard inTable pressKey e s c =
      \<lparr>after = s, prompted = False, outcome = Dispatch (pressKey e (Own v))\<rparr>"
    by (simp add: onCard_hit [of c t])
  with Cons show ?case by simp
qed

text \<open>
  C4. The tag \<open>t\<close> has a stored mapping, with the value \<open>v\<close>. However
  often the tag is tapped, and whatever the environment does, every event leaves the
  state unchanged, shows no prompt and passes the same stored value to
  \<open>pressKey\<close>. This holds for the Windows and for the macOS program.
\<close>

theorem mapped_tag_idempotent:
  assumes "identified c t" and "hasMapping s t" and "own (TAG_KEY_MAPPING s) t = Some v"
  shows "taps onCard_win s c es =
           map (\<lambda>e. \<lparr>after = s, prompted = False,
                      outcome = Dispatch (pressKey_win e (Own v))\<rparr>) es
       \<and> taps onCard_mac s c es =
           map (\<lambda>e. \<lparr>after = s, prompted = False,
                      outcome = Dispatch (pressKey_mac e (Own v))\<rparr>) es"
proof -
  from assms(2,3) have "truthy (Own v)" by (simp add: hasMapping_def)
  with assms(1,3) show ?thesis
    unfolding onCard_win_def onCard_mac_def by (simp add: taps_hit [of c t])
qed

lemma pressKey_win_right:
  "pressKey_win (operator ans) (Own (JString ''right'')) = Exec ''{RIGHT}'' True"
proof -
  have "map_of KEY_MAPPINGS (trim (toLowerCase ''right'')) = Some ''{RIGHT}''"
    by (simp add: KEY_MAPPINGS_def string_eval)
  then show ?thesis by (simp add: pressKey_win_own operator_def)
qed

theorem mapped_tag_idempotent_witness:
  "identified tag_04A224B2 ''04A224B2''
   \<and> hasMapping mappedStore ''04A224B2''
   \<and> own (TAG_KEY_MAPPING mappedStore) ''04A224B2'' = Some (JString ''right'')
   \<and> taps onCard_win mappedStore tag_04A224B2 [operator [], operator ''left''] =
       [\<lparr>after = mappedStore, prompted = False, outcome = Dispatch (Exec ''{RIGHT}'' True)\<rparr>,
        \<lparr>after = mappedStore, prompted = False, outcome = Dispatch (Exec ''{RIGHT}'' True)\<rparr>]"
proof -
  have h2: "own (TAG_KEY_MAPPING mappedStore) ''04A224B2'' = Some (JString ''right'')"
    by (simp add: mappedStore_def)
  have h3: "hasMapping mappedStore ''04A224B2''" by (simp add: hasMapping_def mappedStore_def)
  from mapped_tag_idempotent [OF identified_tag h3 h2, of "[operator [], operator ''left'']",
      THEN conjunct1]
  have "taps onCard_win mappedStore tag_04A224B2 [operator [], operator ''left''] =
       [\<lparr>after = mappedStore, prompted = False, outcome = Dispatch (Exec ''{RIGHT}'' True)\<rparr>,
        \<lparr>after = mappedStore, prompted = False, outcome = Dispatch (Exec ''{RIGHT}'' True)\<rparr>]"
    by (simp only: list.map pressKey_win_right)
  with identified_tag h2 h3 show ?thesis by blast
qed

section \<open>Assigning a key\<close>

lemma emptyStore_unseen: "\<not> truthy (js_get Map.empty ''04A224B2'')"
  by (simp add: js_get_def objectPrototypeKeys_def)

lemma emptyStore_table: "TAG_KEY_MAPPING emptyStore = TObject Map.empty"
  by (simp add: emptyStore_def)

lemma assign_object:
  assumes "identified c t" and "TAG_KEY_MAPPING s = TObject m" and "\<not> truthy (js_get m t)"
    and "askForKeyAssignment (answer e) = Some a" and "inTable a"
  shows "onCard inTable pressKey e s c =
           \<lparr>after = saveMappings e (s\<lparr>TAG_KEY_MAPPING := TObject (js_set m t a)\<rparr>),
            prompted = True,
            outcome = Dispatch (pressKey e (Own (JString a)))\<rparr>"
  using assms by (simp add: onCard_assign [of c t _ _ "js_get m t"] tableGet_TObject)







section \<open>A failed write\<close>





section \<open>Names that reach dispatch\<close>

text \<open>
  C5, as stated, fails. \<open>loadMappings\<close> assigns what \<open>JSON.parse\<close> returns
  and validates nothing, so a process started on a file that maps \<open>04A224B2\<close> to
  \<open>banana\<close> reaches dispatch through a store hit, and \<open>pressKey\<close> takes its
  unknown-key branch.
\<close>

theorem stored_name_not_validated:
  "outcome (onCard_win (operator [])
      (startup (operator []) (Some (Json (TObject [''04A224B2'' \<mapsto> JString ''banana'']))))
      tag_04A224B2) = Dispatch (Rejected UnknownKey)"
proof -
  let ?s = "startup (operator []) (Some (Json (TObject [''04A224B2'' \<mapsto> JString ''banana''])))"
  have m: "TAG_KEY_MAPPING ?s = TObject [''04A224B2'' \<mapsto> JString ''banana'']"
    by (rule startup_Json) (simp add: operator_def)
  then have g: "tableGet (operator []) (TAG_KEY_MAPPING ?s) ''04A224B2''
                  = Some (Own (JString ''banana''))"
    by (simp add: tableGet_TObject js_get_def)
  have "map_of KEY_MAPPINGS (trim (toLowerCase ''banana'')) = None"
    by (simp add: KEY_MAPPINGS_def string_eval)
  then have p: "pressKey_win (operator []) (Own (JString ''banana'')) = Rejected UnknownKey"
    by (simp add: pressKey_win_other objectPrototypeKeys_def string_eval)
  have "truthy (Own (JString ''banana''))" by simp
  from onCard_hit [OF identified_tag g this, of "\<lambda>k. js_in k (map_of KEY_MAPPINGS)"
      pressKey_win] p
  show ?thesis by (simp add: onCard_win_def)
qed

subsection \<open>The store that only the program wrote\<close>

lemma lower_of_normalized:
  assumes "trim (toLowerCase a) = a"
  shows "toLowerCase a = a"
proof -
  have "toLowerCase a = toLowerCase (trim (toLowerCase a))" by (simp add: assms)
  also have "\<dots> = trim (toLowerCase (toLowerCase a))" by (simp add: trim_toLowerCase)
  also have "\<dots> = a" by (simp add: toLowerCase_idem assms)
  finally show ?thesis .
qed

lemma validated_empty: "validated inTable (TObject Map.empty)"
  by (simp add: validated_def)

lemma validated_serial:
  assumes "validated inTable tbl"
  shows "validated inTable (serial tbl)" and "truncated e tbl = Malformed"
proof -
  from assms obtain m where m: "tbl = TObject m"
    and v: "\<And>k v. m k = Some v \<Longrightarrow> \<exists>a. v = JString a \<and> trim (toLowerCase a) = a \<and> inTable a"
    by (auto simp: validated_def)
  show "truncated e tbl = Malformed" by (simp add: m)
  have "\<exists>a. w = JString a \<and> trim (toLowerCase a) = a \<and> inTable a"
    if "map_option serialValue (m k) = Some w" for k w
  proof -
    from that obtain u where u: "m k = Some u" "w = serialValue u" by auto
    with v [of k u] show ?thesis by auto
  qed
  then show "validated inTable (serial tbl)" by (auto simp: m validated_def)
qed

lemma validated_set:
  assumes "validated inTable tbl" and "trim (toLowerCase a) = a" and "inTable a"
    and "tableSet e tbl t a = Some tbl'"
  shows "validated inTable tbl'"
proof -
  from assms(1) obtain m where m: "tbl = TObject m"
    and v: "\<And>k v. m k = Some v \<Longrightarrow> \<exists>a. v = JString a \<and> trim (toLowerCase a) = a \<and> inTable a"
    by (auto simp: validated_def)
  from assms(4) have t: "tbl' = TObject (js_set m t a)" by (simp add: m)
  have "\<exists>b. w = JString b \<and> trim (toLowerCase b) = b \<and> inTable b"
    if "js_set m t a k = Some w" for k w
    using js_set_Some [OF that] v [of k w] assms(2,3) by auto
  then show ?thesis by (auto simp: t validated_def)
qed

lemma ownStore_saveMappings:
  assumes "validated inTable (TAG_KEY_MAPPING s)"
    and "case MAPPINGS_FILE s of None \<Rightarrow> True | Some Malformed \<Rightarrow> True
         | Some (Json tbl) \<Rightarrow> validated inTable tbl"
  shows "ownStore inTable (saveMappings e s)"
  using assms validated_serial(1) [OF assms(1)] validated_serial(2) [OF assms(1), of e]
  by (cases "fileWrite e") (simp_all add: ownStore_def saveMappings_def)

lemma ownStore_first_start: "ownStore inTable (startup e None)"
  unfolding startup_def loadMappings_def
  by (simp add: ownStore_saveMappings validated_empty)

lemma ownStore_restart:
  assumes "ownStore inTable s"
  shows "ownStore inTable (startup e (MAPPINGS_FILE s))"
proof (cases "MAPPINGS_FILE s")
  case None
  then show ?thesis by (simp add: ownStore_first_start)
next
  case (Some f)
  with assms show ?thesis
    by (cases f) (auto simp: ownStore_def startup_def loadMappings_def validated_empty)
qed

lemma ownStore_tap:
  assumes "ownStore inTable s"
  shows "ownStore inTable (after (onCard inTable pressKey e s c))"
proof (cases rule: onCard_cases [of inTable pressKey e s c])
  case (assign t x k tbl)
  from assign(4) have n: "trim (toLowerCase k) = k" by (rule normalize_keyName)
  from assms have "validated inTable (TAG_KEY_MAPPING s)" by (simp add: ownStore_def)
  from validated_set [OF this n assign(5,6)] have "validated inTable tbl" .
  moreover from assms have "case MAPPINGS_FILE s of None \<Rightarrow> True | Some Malformed \<Rightarrow> True
         | Some (Json tbl) \<Rightarrow> validated inTable tbl"
    by (simp add: ownStore_def)
  ultimately have "ownStore inTable (saveMappings e (s\<lparr>TAG_KEY_MAPPING := tbl\<rparr>))"
    by (intro ownStore_saveMappings) simp_all
  with assign(7) show ?thesis by simp
qed (use assms in simp_all)

lemma reachable_ownStore:
  "reachable (onCard inTable pressKey) s \<Longrightarrow> ownStore inTable s"
  by (induction rule: reachable.induct)
    (simp_all add: ownStore_first_start ownStore_tap ownStore_restart)

text \<open>
  Given that \<open>pressKey\<close> leaves its unknown-key branch aside for every value that is
  not a string and for every trimmed, lowercased name that passed the validation: the
  branch is not taken after a fresh assignment, nor from a store that only the program
  wrote.
\<close>

lemma fresh_not_unknown:
  assumes "\<And>a. inTable a \<Longrightarrow> trim (toLowerCase a) = a \<Longrightarrow>
             pressKey e (Own (JString a)) \<noteq> Rejected UnknownKey"
    and "prompted (onCard inTable pressKey e s c)"
  shows "outcome (onCard inTable pressKey e s c) \<noteq> Dispatch (Rejected UnknownKey)"
proof (cases rule: onCard_cases [of inTable pressKey e s c])
  case (assign t x k tbl)
  from assign(4) have "trim (toLowerCase k) = k" by (rule normalize_keyName)
  with assms(1) assign(5) have "pressKey e (Own (JString k)) \<noteq> Rejected UnknownKey" by simp
  with assign(7) show ?thesis by simp
next
  case (hit t x)
  with assms(2) show ?thesis by simp
qed simp_all

lemma ownStore_not_unknown:
  assumes "\<And>a. inTable a \<Longrightarrow> trim (toLowerCase a) = a \<Longrightarrow>
             pressKey e (Own (JString a)) \<noteq> Rejected UnknownKey"
    and "\<And>x. (\<And>k. x \<noteq> Own (JString k)) \<Longrightarrow> pressKey e x \<noteq> Rejected UnknownKey"
    and "ownStore inTable s"
  shows "outcome (onCard inTable pressKey e s c) \<noteq> Dispatch (Rejected UnknownKey)"
proof (cases rule: onCard_cases [of inTable pressKey e s c])
  case (assign t x k tbl)
  from assign(4) have "trim (toLowerCase k) = k" by (rule normalize_keyName)
  with assms(1) assign(5) have "pressKey e (Own (JString k)) \<noteq> Rejected UnknownKey" by simp
  with assign(7) show ?thesis by simp
next
  case (hit t x)
  from assms(3) obtain m where m: "TAG_KEY_MAPPING s = TObject m"
    and v: "\<And>k v. m k = Some v \<Longrightarrow> \<exists>a. v = JString a \<and> trim (toLowerCase a) = a \<and> inTable a"
    by (auto simp: ownStore_def validated_def)
  have "pressKey e x \<noteq> Rejected UnknownKey"
  proof (cases "\<exists>k. x = Own (JString k)")
    case False
    then show ?thesis by (intro assms(2)) simp
  next
    case True
    then obtain k where k: "x = Own (JString k)" ..
    with hit(2) have "m t = Some (JString k)"
      by (simp add: m tableGet_TObject js_get_def split: option.splits if_splits)
    from v [OF this] have "trim (toLowerCase k) = k" "inTable k" by simp_all
    with assms(1) k show ?thesis by simp
  qed
  with hit(4) show ?thesis by simp
qed simp_all

lemma pressKey_win_validated:
  "js_in a (map_of KEY_MAPPINGS) \<Longrightarrow> trim (toLowerCase a) = a \<Longrightarrow>
     pressKey_win e (Own (JString a)) \<noteq> Rejected UnknownKey"
  by (simp add: pressKey_win_unknown_iff)

lemma pressKey_mac_validated:
  "js_in a (map_of KEY_CODES) \<Longrightarrow> trim (toLowerCase a) = a \<Longrightarrow>
     pressKey_mac e (Own (JString a)) \<noteq> Rejected UnknownKey"
  using lower_of_normalized [of a] by (simp add: pressKey_mac_unknown_iff)

lemma pressKey_not_string_known:
  "(\<And>k. x \<noteq> Own (JString k)) \<Longrightarrow> pressKey_win e x \<noteq> Rejected UnknownKey"
  "(\<And>k. x \<noteq> Own (JString k)) \<Longrightarrow> pressKey_mac e x \<noteq> Rejected UnknownKey"
  by (simp_all add: pressKey_win_not_string pressKey_mac_not_string)

text \<open>
  C5, amended. In both programs, the unknown-key branch of \<open>pressKey\<close> is not taken
  by an event that reaches dispatch through a fresh assignment (in any state), nor by any
  event in a state of a store that only the program wrote: a first process started
  without a mappings file, then any taps and restarts under any environment.
\<close>

theorem unknown_key_branch_unreachable:
  "(prompted (onCard_win e s c) \<longrightarrow>
      outcome (onCard_win e s c) \<noteq> Dispatch (Rejected UnknownKey))
   \<and> (reachable onCard_win s \<longrightarrow>
      outcome (onCard_win e s c) \<noteq> Dispatch (Rejected UnknownKey))
   \<and> (prompted (onCard_mac e s c) \<longrightarrow>
      outcome (onCard_mac e s c) \<noteq> Dispatch (Rejected UnknownKey))
   \<and> (reachable onCard_mac s \<longrightarrow>
      outcome (onCard_mac e s c) \<noteq> Dispatch (Rejected UnknownKey))"
proof (intro conjI impI)
  assume "prompted (onCard_win e s c)"
  then show "outcome (onCard_win e s c) \<noteq> Dispatch (Rejected UnknownKey)"
    unfolding onCard_win_def by (intro fresh_not_unknown pressKey_win_validated)
next
  assume "reachable onCard_win s"
  then have "ownStore (\<lambda>k. js_in k (map_of KEY_MAPPINGS)) s"
    unfolding onCard_win_def by (rule reachable_ownStore)
  then show "outcome (onCard_win e s c) \<noteq> Dispatch (Rejected UnknownKey)"
    unfolding onCard_win_def
    by (intro ownStore_not_unknown pressKey_win_validated pressKey_not_string_known)
next
  assume "prompted (onCard_mac e s c)"
  then show "outcome (onCard_mac e s c) \<noteq> Dispatch (Rejected UnknownKey)"
    unfolding onCard_mac_def by (intro fresh_not_unknown pressKey_mac_validated)
next
  assume "reachable onCard_mac s"
  then have "ownStore (\<lambda>k. js_in k (map_of KEY_CODES)) s"
    unfolding onCard_mac_def by (rule reachable_ownStore)
  then show "outcome (onCard_mac e s c) \<noteq> Dispatch (Rejected UnknownKey)"
    unfolding onCard_mac_def
    by (intro ownStore_not_unknown pressKey_mac_validated pressKey_not_string_known)
qed

lemma startup_no_file: "startup (operator []) None = emptyStore"
  by (simp add: startup_def loadMappings_def saveMappings_def operator_def emptyStore_def)

lemma ask_right: "askForKeyAssignment (answer (operator ''right'')) = Some ''right''"
  by (simp add: operator_def askForKeyAssignment_def string_eval)

lemma first_assignment:
  assumes "inTable ''right''"
  shows "onCard inTable pressKey (operator ''right'') emptyStore tag_04A224B2 =
           \<lparr>after = mappedStore, prompted = True,
            outcome = Dispatch (pressKey (operator ''right'') (Own (JString ''right'')))\<rparr>"
proof -
  have "saveMappings (operator ''right'')
          (emptyStore\<lparr>TAG_KEY_MAPPING := TObject (js_set Map.empty ''04A224B2'' ''right'')\<rparr>)
        = mappedStore"
    by (simp add: saveMappings_def operator_def emptyStore_def mappedStore_def js_set_def
        fun_eq_iff)
  with assign_object [OF identified_tag emptyStore_table emptyStore_unseen ask_right,
      of inTable pressKey, OF assms]
  show ?thesis by simp
qed

lemma right_in_tables:
  "js_in ''right'' (map_of KEY_MAPPINGS)" "js_in ''right'' (map_of KEY_CODES)"
  by (rule js_in_own, simp add: KEY_MAPPINGS_def, rule js_in_own, simp add: KEY_CODES_def)

lemma reachable_mappedStore:
  "reachable onCard_win mappedStore" "reachable onCard_mac mappedStore"
proof -
  have "reachable onCard_win (after (onCard_win (operator ''right'')
          (startup (operator []) None) tag_04A224B2))"
    by (intro reachable.tap reachable.first_start)
  then show "reachable onCard_win mappedStore"
    by (simp add: startup_no_file onCard_win_def [of] first_assignment right_in_tables)
  have "reachable onCard_mac (after (onCard_mac (operator ''right'')
          (startup (operator []) None) tag_04A224B2))"
    by (intro reachable.tap reachable.first_start)
  then show "reachable onCard_mac mappedStore"
    by (simp add: startup_no_file onCard_mac_def [of] first_assignment right_in_tables)
qed

theorem unknown_key_branch_unreachable_witness:
  "prompted (onCard_win (operator ''right'') emptyStore tag_04A224B2)
   \<and> outcome (onCard_win (operator ''right'') emptyStore tag_04A224B2)
       \<noteq> Dispatch (Rejected UnknownKey)
   \<and> reachable onCard_win mappedStore
   \<and> outcome (onCard_win (operator []) mappedStore tag_04A224B2)
       \<noteq> Dispatch (Rejected UnknownKey)
   \<and> prompted (onCard_mac (operator ''right'') emptyStore tag_04A224B2)
   \<and> outcome (onCard_mac (operator ''right'') emptyStore tag_04A224B2)
       \<noteq> Dispatch (Rejected UnknownKey)
   \<and> reachable onCard_mac mappedStore
   \<and> outcome (onCard_mac (operator []) mappedStore tag_04A224B2)
       \<noteq> Dispatch (Rejected UnknownKey)"
proof -
  have pw: "prompted (onCard_win (operator ''right'') emptyStore tag_04A224B2)"
    by (simp add: onCard_win_def first_assignment right_in_tables)
  have pm: "prompted (onCard_mac (operator ''right'') emptyStore tag_04A224B2)"
    by (simp add: onCard_mac_def first_assignment right_in_tables)
  note a = unknown_key_branch_unreachable
    [of "operator ''right''" emptyStore tag_04A224B2]
  note b = unknown_key_branch_unreachable [of "operator []" mappedStore tag_04A224B2]
  from a b pw pm reachable_mappedStore show ?thesis by blast
qed

section \<open>Names inherited from the prototype\<close>

lemma constructor_inherited: "''constructor'' \<in> set objectPrototypeKeys"
  by (simp add: objectPrototypeKeys_def)

lemma constructor_not_key:
  "''constructor'' \<notin> fst ` set KEY_MAPPINGS" "''constructor'' \<notin> fst ` set KEY_CODES"
  by (simp_all add: KEY_MAPPINGS_def KEY_CODES_def)

lemma constructor_in: "js_in ''constructor'' obj"
  by (simp add: js_in_iff constructor_inherited)

lemma pressKey_win_constructor:
  "pressKey_win e (Own (JString ''constructor'')) = Rejected TypeError"
proof -
  have n: "trim (toLowerCase ''constructor'') = ''constructor''" by (simp add: string_eval)
  have "map_of KEY_MAPPINGS ''constructor'' = None"
    using constructor_not_key(1) by (simp add: map_of_eq_None_iff)
  then show ?thesis by (simp add: pressKey_win_other n constructor_inherited)
qed

lemma pressKey_mac_constructor:
  "pressKey_mac e (Own (JString ''constructor'')) = Exec Inherited (execOk e)"
proof -
  have n: "toLowerCase ''constructor'' = ''constructor''" by (simp add: string_eval)
  have "map_of KEY_CODES ''constructor'' = None"
    using constructor_not_key(2) by (simp add: map_of_eq_None_iff)
  then show ?thesis by (simp add: pressKey_mac_def n js_get_def constructor_inherited)
qed

text \<open>For every name for which \<open>in\<close> is false the validation does what C2 says.\<close>

lemma onCard_rejects:
  assumes "identified c t" and "tableGet e (TAG_KEY_MAPPING s) t = Some x" and "\<not> truthy x"
    and "askForKeyAssignment (answer e) = Some k" and "\<not> js_in k (map_of KEY_MAPPINGS)"
  shows "onCard_win e s c = \<lparr>after = s, prompted = True, outcome = InvalidKey k\<rparr>"
  unfolding onCard_win_def using assms by (simp add: onCard_invalid [of c t])

text \<open>
  What an event adds to a plain object is a trimmed, lowercased name for which \<open>in\<close>
  is true: a key of the table, or the name of an inherited member.
\<close>

lemma onCard_writes:
  assumes "TAG_KEY_MAPPING s = TObject m"
    and "own (TAG_KEY_MAPPING (after (onCard inTable pressKey e s c))) u = Some v"
  shows "m u = Some v \<or> (\<exists>a. v = JString a \<and> trim (toLowerCase a) = a \<and> inTable a)"
proof (cases rule: onCard_cases [of inTable pressKey e s c])
  case (assign t x k tbl)
  from assign(4) have n: "trim (toLowerCase k) = k" by (rule normalize_keyName)
  from assign(6) have "tbl = TObject (js_set m t k)" by (simp add: assms(1))
  with assms(2) assign(7) have "js_set m t k u = Some v" by simp
  from js_set_Some [OF this] n assign(5) show ?thesis by auto
qed (use assms in simp_all)

lemma ask_constructor:
  "askForKeyAssignment (answer (operator ''constructor'')) = Some ''constructor''"
  "askForKeyAssignment (answer (operator '' Constructor '')) = Some ''constructor''"
  by (simp_all add: operator_def askForKeyAssignment_def string_eval)

lemma constructor_assignment:
  assumes "askForKeyAssignment (answer (operator ans)) = Some ''constructor''"
  shows "onCard (\<lambda>k. js_in k tbl) pressKey (operator ans) emptyStore tag_04A224B2 =
           \<lparr>after =
              \<lparr>TAG_KEY_MAPPING = TObject [''04A224B2'' \<mapsto> JString ''constructor''],
               MAPPINGS_FILE = Some (Json (TObject [''04A224B2'' \<mapsto> JString ''constructor'']))\<rparr>,
            prompted = True,
            outcome = Dispatch (pressKey (operator ans) (Own (JString ''constructor'')))\<rparr>"
proof -
  have "saveMappings (operator ans)
          (emptyStore\<lparr>TAG_KEY_MAPPING := TObject (js_set Map.empty ''04A224B2'' ''constructor'')\<rparr>)
        = \<lparr>TAG_KEY_MAPPING = TObject [''04A224B2'' \<mapsto> JString ''constructor''],
           MAPPINGS_FILE = Some (Json (TObject [''04A224B2'' \<mapsto> JString ''constructor'']))\<rparr>"
    by (simp add: saveMappings_def operator_def emptyStore_def js_set_def fun_eq_iff)
  with assign_object [OF identified_tag emptyStore_table emptyStore_unseen assms,
      of "\<lambda>k. js_in k tbl" pressKey, OF constructor_in]
  show ?thesis by simp
qed

text \<open>
  C2 does not hold of the code. The name \<open>constructor\<close> is not a key of either
  table, but \<open>"constructor" in KEY_MAPPINGS\<close> is true, so the validation lets it
  through: on an empty store the Windows handler writes the entry to the in-memory table
  and to the file, reports no validation failure, and \<open>pressKey\<close> is then rejected
  with a \<open>TypeError\<close>. The macOS handler writes the same entry and starts the child
  process with the inherited member in place of a key code.
\<close>

theorem constructor_is_assigned:
  "''constructor'' \<notin> fst ` set KEY_MAPPINGS
   \<and> own (TAG_KEY_MAPPING (after (onCard_win (operator ''constructor'') emptyStore tag_04A224B2)))
       ''04A224B2'' = Some (JString ''constructor'')
   \<and> MAPPINGS_FILE (after (onCard_win (operator ''constructor'') emptyStore tag_04A224B2))
       = Some (Json (TObject [''04A224B2'' \<mapsto> JString ''constructor'']))
   \<and> outcome (onCard_win (operator ''constructor'') emptyStore tag_04A224B2)
       = Dispatch (Rejected TypeError)
   \<and> ''constructor'' \<notin> fst ` set KEY_CODES
   \<and> after (onCard_mac (operator ''constructor'') emptyStore tag_04A224B2)
       = after (onCard_win (operator ''constructor'') emptyStore tag_04A224B2)
   \<and> outcome (onCard_mac (operator ''constructor'') emptyStore tag_04A224B2)
       = Dispatch (Exec Inherited True)
   \<and> injected (outcome (onCard_mac (operator ''constructor'') emptyStore tag_04A224B2))"
proof -
  have ex: "execOk (operator ''constructor'')" by (simp add: operator_def)
  note w = constructor_assignment [OF ask_constructor(1), of "map_of KEY_MAPPINGS" pressKey_win,
      folded onCard_win_def]
  note m = constructor_assignment [OF ask_constructor(1), of "map_of KEY_CODES" pressKey_mac,
      folded onCard_mac_def]
  show ?thesis
    by (simp add: w m constructor_not_key pressKey_win_constructor pressKey_mac_constructor ex)
qed

text \<open>
  C10 does not hold of the code. A process started without a mappings file has an empty
  table; after one tap answered with \<open>" Constructor "\<close> the table maps the tag to
  \<open>constructor\<close>, which is trimmed and lowercased but is a key of neither
  \<open>KEY_MAPPINGS\<close> nor \<open>KEY_CODES\<close>.
\<close>

theorem prototype_name_is_stored:
  "TAG_KEY_MAPPING (startup (operator []) None) = TObject Map.empty
   \<and> own (TAG_KEY_MAPPING
        (after (onCard_win (operator '' Constructor '') (startup (operator []) None) tag_04A224B2)))
        ''04A224B2'' = Some (JString ''constructor'')
   \<and> trim (toLowerCase ''constructor'') = ''constructor''
   \<and> ''constructor'' \<notin> fst ` set KEY_MAPPINGS
   \<and> own (TAG_KEY_MAPPING
        (after (onCard_mac (operator '' Constructor '') (startup (operator []) None) tag_04A224B2)))
        ''04A224B2'' = Some (JString ''constructor'')
   \<and> ''constructor'' \<notin> fst ` set KEY_CODES"
proof -
  have n: "trim (toLowerCase ''constructor'') = ''constructor''" by (simp add: string_eval)
  note w = constructor_assignment [OF ask_constructor(2), of "map_of KEY_MAPPINGS" pressKey_win,
      folded onCard_win_def]
  note m = constructor_assignment [OF ask_constructor(2), of "map_of KEY_CODES" pressKey_mac,
      folded onCard_mac_def]
  show ?thesis
    by (simp add: startup_no_file emptyStore_table w m n constructor_not_key)
qed

section \<open>The two programs compared\<close>

text \<open>
  C6 does not hold of the code. The keys of \<open>KEY_MAPPINGS\<close> are the keys of
  \<open>KEY_CODES\<close> and \<open>esc\<close>, which \<open>KEY_CODES\<close> lacks: the Windows
  \<open>pressKey\<close> resolves \<open>esc\<close> to \<open>{ESC}\<close>, the macOS
  \<open>pressKey\<close> rejects it as an unknown key.
\<close>

theorem esc_only_in_KEY_MAPPINGS:
  "fst ` set KEY_MAPPINGS = insert ''esc'' (fst ` set KEY_CODES)
   \<and> ''esc'' \<notin> fst ` set KEY_CODES
   \<and> pressKey_win e (Own (JString ''esc'')) =
       (if tmpWriteOk e then Exec ''{ESC}'' (execOk e) else Rejected TempFileError)
   \<and> pressKey_mac e (Own (JString ''esc'')) = Rejected UnknownKey"
proof -
  have n: "trim (toLowerCase ''esc'') = ''esc''" "toLowerCase ''esc'' = ''esc''"
    by (simp_all add: string_eval)
  have w: "map_of KEY_MAPPINGS ''esc'' = Some ''{ESC}''" by (simp add: KEY_MAPPINGS_def)
  have k: "''esc'' \<notin> fst ` set KEY_CODES" by (simp add: KEY_CODES_def)
  then have "map_of KEY_CODES ''esc'' = None" by (simp add: map_of_eq_None_iff)
  then have m: "pressKey_mac e (Own (JString ''esc'')) = Rejected UnknownKey"
    by (simp add: pressKey_mac_def n js_get_def objectPrototypeKeys_def)
  have "map_of KEY_MAPPINGS (trim (toLowerCase ''esc'')) = Some ''{ESC}''"
    unfolding n(1) by (rule w)
  then have "pressKey_win e (Own (JString ''esc'')) =
       (if tmpWriteOk e then Exec ''{ESC}'' (execOk e) else Rejected TempFileError)"
    by (rule pressKey_win_own)
  with k m keys_KEY_MAPPINGS show ?thesis by blast
qed

text \<open>
  C7 does not hold of the code. \<open>" left"\<close> and \<open>"left"\<close> are equal after
  trimming and lowercasing; the Windows \<open>pressKey\<close> treats them alike, the macOS
  \<open>pressKey\<close> resolves \<open>"left"\<close> to key code 123 and rejects
  \<open>" left"\<close> as an unknown key. In both programs the name \<open>constructor\<close>,
  which is not in the table, is not reported as unknown: the Windows program fails with
  a \<open>TypeError\<close>, the macOS program starts the child process.
\<close>

theorem pressKey_mac_does_not_trim:
  "trim (toLowerCase '' left'') = trim (toLowerCase ''left'')
   \<and> pressKey_mac e (Own (JString ''left'')) = Exec (Own 123) (execOk e)
   \<and> pressKey_mac e (Own (JString '' left'')) = Rejected UnknownKey
   \<and> pressKey_win e (Own (JString '' left'')) = pressKey_win e (Own (JString ''left''))
   \<and> pressKey_win e (Own (JString ''constructor'')) = Rejected TypeError
   \<and> pressKey_mac e (Own (JString ''constructor'')) = Exec Inherited (execOk e)"
proof -
  have n: "trim (toLowerCase '' left'') = trim (toLowerCase ''left'')" by (simp add: string_eval)
  have l: "toLowerCase ''left'' = ''left''" "toLowerCase '' left'' = '' left''"
    by (simp_all add: string_eval)
  have a: "map_of KEY_CODES ''left'' = Some 123" by (simp add: KEY_CODES_def)
  have "'' left'' \<notin> fst ` set KEY_CODES" by (simp add: KEY_CODES_def)
  then have b: "map_of KEY_CODES '' left'' = None" by (simp add: map_of_eq_None_iff)
  from a have 1: "pressKey_mac e (Own (JString ''left'')) = Exec (Own 123) (execOk e)"
    by (simp add: pressKey_mac_def l js_get_def)
  from b have 2: "pressKey_mac e (Own (JString '' left'')) = Rejected UnknownKey"
    by (simp add: pressKey_mac_def l js_get_def objectPrototypeKeys_def)
  from n have 3: "pressKey_win e (Own (JString '' left'')) = pressKey_win e (Own (JString ''left''))"
    by (rule pressKey_win_normalized)
  from n 1 2 3 show ?thesis
    by (simp only: pressKey_win_constructor pressKey_mac_constructor simp_thms)
qed

end
